theory Spec2Isabelle
  imports Complex_Main "HOL-Library.Log_Nat"
begin

section \<open>Python strings and characters\<close>

text \<open>
  The program is \<^verbatim>\<open>app.py\<close>: \<^verbatim>\<open>clean\<close>, \<^verbatim>\<open>parse_header\<close>, \<^verbatim>\<open>parse_lines\<close> and
  \<^verbatim>\<open>to_craftybase_rows\<close>. A Python \<^verbatim>\<open>str\<close> is modelled as a \<^typ>\<open>string\<close>: a list of
  characters, each a code point in the range 0 to 255. The character predicates below are the
  ones of Python on that range (\<^verbatim>\<open>str.isspace\<close>, the classes \<^verbatim>\<open>\s\<close>, \<^verbatim>\<open>\d\<close>, \<^verbatim>\<open>\w\<close> of the
  module \<^verbatim>\<open>re\<close> on \<^verbatim>\<open>str\<close> patterns, \<^verbatim>\<open>str.lower\<close>, the line boundaries of
  \<^verbatim>\<open>str.splitlines\<close>); code points above 255 are outside the model.
\<close>

definition ord :: "char \<Rightarrow> nat" where
  "ord c = of_char c"

definition in_range :: "nat \<Rightarrow> nat \<Rightarrow> char \<Rightarrow> bool" where
  "in_range lo hi c = (lo \<le> ord c \<and> ord c \<le> hi)"

definition is_space :: "char \<Rightarrow> bool" where
  \<comment> \<open>\<^verbatim>\<open>str.isspace\<close> and \<^verbatim>\<open>\s\<close>: tab, LF, VT, FF, CR, FS, GS, RS, US, space, NEL, NBSP\<close>
  "is_space c = (in_range 0x09 0x0D c \<or> in_range 0x1C 0x1F c \<or> ord c = 0x20
                 \<or> ord c = 0x85 \<or> ord c = 0xA0)"

definition is_digit :: "char \<Rightarrow> bool" where
  \<comment> \<open>\<^verbatim>\<open>\d\<close>: the decimal digits, which below 256 are 0 to 9\<close>
  "is_digit c = in_range 0x30 0x39 c"

definition is_word :: "char \<Rightarrow> bool" where
  \<comment> \<open>\<^verbatim>\<open>\w\<close>: alphanumeric (\<^verbatim>\<open>str.isalnum\<close>) or underscore\<close>
  "is_word c = (in_range 0x30 0x39 c \<or> in_range 0x41 0x5A c \<or> ord c = 0x5F
                \<or> in_range 0x61 0x7A c \<or> ord c = 0xAA \<or> in_range 0xB2 0xB3 c
                \<or> ord c = 0xB5 \<or> in_range 0xB9 0xBA c \<or> in_range 0xBC 0xBE c
                \<or> in_range 0xC0 0xD6 c \<or> in_range 0xD8 0xF6 c \<or> in_range 0xF8 0xFF c)"

definition lower_char :: "char \<Rightarrow> char" where
  \<comment> \<open>\<^verbatim>\<open>str.lower\<close> on one character: A to Z and the capital letters 0xC0 to 0xDE (but 0xD7)\<close>
  "lower_char c = (if in_range 0x41 0x5A c then char_of (ord c + 32)
                   else if in_range 0xC0 0xDE c \<and> ord c \<noteq> 0xD7 then char_of (ord c + 32)
                   else c)"

definition upper_ascii :: "char \<Rightarrow> char" where
  "upper_ascii c = (if in_range 0x61 0x7A c then char_of (ord c - 32) else c)"

definition lower :: "string \<Rightarrow> string" where
  "lower s = map lower_char s"

definition strip :: "string \<Rightarrow> string" where
  \<comment> \<open>\<^verbatim>\<open>s.strip()\<close>: leading and trailing whitespace removed\<close>
  "strip s = rev (dropWhile is_space (rev (dropWhile is_space s)))"

function sub_spaces :: "string \<Rightarrow> string" where
  \<comment> \<open>\<^verbatim>\<open>re.sub(r"\s+", " ", s)\<close>: every maximal run of whitespace becomes one space\<close>
  "sub_spaces [] = []"
| "sub_spaces (c # cs) =
     (if is_space c then CHR '' '' # sub_spaces (dropWhile is_space cs)
      else c # sub_spaces cs)"
  by pat_completeness auto
termination
  by (relation "measure length") (auto simp: length_dropWhile_le less_Suc_eq_le)

definition clean :: "string \<Rightarrow> string" where
  "clean s = sub_spaces (strip s)"

definition is_linebreak :: "char \<Rightarrow> bool" where
  \<comment> \<open>the line boundaries of \<^verbatim>\<open>str.splitlines\<close> below 256, CR apart\<close>
  "is_linebreak c = (in_range 0x0A 0x0C c \<or> in_range 0x1C 0x1E c \<or> ord c = 0x85)"

fun split_acc :: "string \<Rightarrow> string \<Rightarrow> string list" where
  \<comment> \<open>the first argument is the current line, reversed; CR LF is one boundary\<close>
  "split_acc cur [] = (if cur = [] then [] else [rev cur])"
| "split_acc cur [c] =
     (if ord c = 0x0D \<or> is_linebreak c then [rev cur] else [rev (c # cur)])"
| "split_acc cur (c # d # cs) =
     (if ord c = 0x0D \<and> ord d = 0x0A then rev cur # split_acc [] cs
      else if ord c = 0x0D \<or> is_linebreak c then rev cur # split_acc [] (d # cs)
      else split_acc (c # cur) (d # cs))"

definition splitlines :: "string \<Rightarrow> string list" where
  "splitlines s = split_acc [] s"

fun contains :: "string \<Rightarrow> string \<Rightarrow> bool" where
  \<comment> \<open>\<^verbatim>\<open>sub in s\<close>: \<^verbatim>\<open>sub\<close> starts at some position of \<^verbatim>\<open>s\<close>\<close>
  "contains sub [] = (sub = [])"
| "contains sub (x # xs) = (take (length sub) (x # xs) = sub \<or> contains sub xs)"

section \<open>Regular expressions\<close>

text \<open>
  The patterns of the program use literals, character classes, the anchors \<^verbatim>\<open>^\<close> and
  \<^verbatim>\<open>$\<close>, the word boundary \<^verbatim>\<open>\b\<close>, groups, alternation, and repetition of a
  one-character item (greedy, or lazy as in \<^verbatim>\<open>.*?\<close>). The matcher computes what the
  backtracking matcher of \<^verbatim>\<open>re\<close> computes: the list of all ways a pattern can match at a
  position, in the order in which backtracking tries them, so that the head of the list is the
  match \<^verbatim>\<open>re\<close> returns. The flags \<^verbatim>\<open>re.IGNORECASE\<close> and \<^verbatim>\<open>re.DOTALL\<close> are two booleans.
\<close>

datatype atom =
    AChar char                    \<comment> \<open>a literal character\<close>
  | AAny                          \<comment> \<open>\<^verbatim>\<open>.\<close>\<close>
  | ADigit                        \<comment> \<open>\<^verbatim>\<open>\d\<close>\<close>
  | ASpace                        \<comment> \<open>\<^verbatim>\<open>\s\<close>\<close>
  | ASet "(char \<times> char) list"    \<comment> \<open>\<^verbatim>\<open>[...]\<close>, a list of ranges; one character is the range from it to it\<close>

datatype rx =
    Atom atom
  | Lit string                    \<comment> \<open>a run of literal characters\<close>
  | Bol                           \<comment> \<open>\<^verbatim>\<open>^\<close>\<close>
  | Eol                           \<comment> \<open>\<^verbatim>\<open>$\<close>\<close>
  | WordB                         \<comment> \<open>\<^verbatim>\<open>\b\<close>\<close>
  | Cat "rx list"
  | Alt rx rx
  | Rep nat "nat option" bool atom  \<comment> \<open>least count, greatest count, greedy, item\<close>
  | Grp nat rx                    \<comment> \<open>capturing group with its number\<close>

abbreviation Star :: "atom \<Rightarrow> rx" where "Star a \<equiv> Rep 0 None True a"
abbreviation Plus :: "atom \<Rightarrow> rx" where "Plus a \<equiv> Rep 1 None True a"
abbreviation LazyStar :: "atom \<Rightarrow> rx" where "LazyStar a \<equiv> Rep 0 None False a"
abbreviation Opt :: "atom \<Rightarrow> rx" where "Opt a \<equiv> Rep 0 (Some 1) True a"

definition in_set :: "(char \<times> char) list \<Rightarrow> char \<Rightarrow> bool" where
  "in_set rs c = list_ex (\<lambda>(lo, hi). in_range (ord lo) (ord hi) c) rs"

fun atom_ok :: "bool \<Rightarrow> bool \<Rightarrow> atom \<Rightarrow> char \<Rightarrow> bool" where
  \<comment> \<open>the arguments are IGNORECASE, DOTALL, the item and the character\<close>
  "atom_ok ic da (AChar c) x = (if ic then lower_char x = lower_char c else x = c)"
| "atom_ok ic da AAny x = (if da then True else ord x \<noteq> 0x0A)"
| "atom_ok ic da ADigit x = is_digit x"
| "atom_ok ic da ASpace x = is_space x"
| "atom_ok ic da (ASet rs) x =
     (in_set rs x \<or> (ic \<and> (in_set rs (lower_char x) \<or> in_set rs (upper_ascii x))))"

type_synonym caps = "(nat \<times> string) list"
type_synonym mstate = "char option \<times> string \<times> caps"
  \<comment> \<open>the character before the position, the text from the position on, the groups so far\<close>

fun reps :: "(char \<Rightarrow> bool) \<Rightarrow> nat \<Rightarrow> nat option \<Rightarrow> bool \<Rightarrow> char option \<Rightarrow> string
             \<Rightarrow> (char option \<times> string) list" where
  "reps p lo hi g prev [] = (if lo = 0 then [(prev, [])] else [])"
| "reps p lo hi g prev (x # xs) =
     (let more = (if p x \<and> hi \<noteq> Some 0
                  then reps p (lo - 1) (map_option (\<lambda>h. h - 1) hi) g (Some x) xs else []);
          stop = (if lo = 0 then [(prev, x # xs)] else [])
      in if g then more @ stop else stop @ more)"

fun lit_match :: "bool \<Rightarrow> string \<Rightarrow> char option \<Rightarrow> string \<Rightarrow> (char option \<times> string) option" where
  "lit_match ic [] prev xs = Some (prev, xs)"
| "lit_match ic (c # cs) prev [] = None"
| "lit_match ic (c # cs) prev (x # xs) =
     (if atom_ok ic False (AChar c) x then lit_match ic cs (Some x) xs else None)"

definition boundary :: "char option \<Rightarrow> string \<Rightarrow> bool" where
  "boundary prev xs =
     ((case prev of None \<Rightarrow> False | Some c \<Rightarrow> is_word c)
      \<noteq> (case xs of [] \<Rightarrow> False | x # _ \<Rightarrow> is_word x))"

fun rmatch :: "bool \<Rightarrow> bool \<Rightarrow> rx \<Rightarrow> mstate \<Rightarrow> mstate list" where
  "rmatch ic da (Atom a) (prev, xs, cs) =
     (case xs of [] \<Rightarrow> []
      | x # xs' \<Rightarrow> if atom_ok ic da a x then [(Some x, xs', cs)] else [])"
| "rmatch ic da (Lit s) (prev, xs, cs) =
     (case lit_match ic s prev xs of None \<Rightarrow> [] | Some (p, r) \<Rightarrow> [(p, r, cs)])"
| "rmatch ic da Bol (prev, xs, cs) = (if prev = None then [(prev, xs, cs)] else [])"
| "rmatch ic da Eol (prev, xs, cs) =
     (if xs = [] \<or> xs = [CHR 0x0A] then [(prev, xs, cs)] else [])"
| "rmatch ic da WordB (prev, xs, cs) = (if boundary prev xs then [(prev, xs, cs)] else [])"
| "rmatch ic da (Cat []) st = [st]"
| "rmatch ic da (Cat (r # rs)) st = concat (map (rmatch ic da (Cat rs)) (rmatch ic da r st))"
| "rmatch ic da (Alt r1 r2) st = rmatch ic da r1 st @ rmatch ic da r2 st"
| "rmatch ic da (Rep lo hi g a) (prev, xs, cs) =
     map (\<lambda>(p, r). (p, r, cs)) (reps (atom_ok ic da a) lo hi g prev xs)"
| "rmatch ic da (Grp n r) (prev, xs, cs) =
     map (\<lambda>(p, r, cs'). (p, r, (n, take (length xs - length r) xs) # cs'))
         (rmatch ic da r (prev, xs, cs))"

fun search_from :: "bool \<Rightarrow> bool \<Rightarrow> rx \<Rightarrow> char option \<Rightarrow> string \<Rightarrow> caps option" where
  "search_from ic da r prev [] =
     (case rmatch ic da r (prev, [], []) of [] \<Rightarrow> None | (_, _, cs) # _ \<Rightarrow> Some cs)"
| "search_from ic da r prev (x # xs) =
     (case rmatch ic da r (prev, x # xs, []) of
        [] \<Rightarrow> search_from ic da r (Some x) xs
      | (_, _, cs) # _ \<Rightarrow> Some cs)"

definition re_search :: "bool \<Rightarrow> bool \<Rightarrow> rx \<Rightarrow> string \<Rightarrow> caps option" where
  \<comment> \<open>\<^verbatim>\<open>re.search\<close>: the first match at the leftmost position that has one\<close>
  "re_search ic da r s = search_from ic da r None s"

definition group :: "caps \<Rightarrow> nat \<Rightarrow> string" where
  \<comment> \<open>\<^verbatim>\<open>m.group(n)\<close>. Python gives \<^verbatim>\<open>None\<close> for a group that took no part in the match;
      every group of the patterns below takes part in every match (lemmas \<open>search_group_set\<close>,
      \<open>header_patterns_set_group\<close> and \<open>line_patterns_set_group\<close>).\<close>
  "group m n = (case map_of m n of None \<Rightarrow> [] | Some v \<Rightarrow> v)"

section \<open>Errors and floats\<close>

datatype error = ValueError | OverflowError

text \<open>
  A Python \<^verbatim>\<open>float\<close> is an IEEE 754 double: a finite double is modelled by the real number
  it denotes, next to the two infinities and NaN. The two zeros are one value (Python's
  \<^verbatim>\<open>==\<close> and truth test do not tell them apart). \<open>round64\<close> rounds a real number to the nearest
  double, ties to the even mantissa: a mantissa of at most 53 bits and an
  exponent \<open>e\<close> of at least \<open>-1074\<close>, and infinity when the rounded value reaches \<open>2 ^ 1024\<close>.
\<close>

datatype pyfloat = Fin real | PosInf | NegInf | NaN

definition round_half_even :: "real \<Rightarrow> int" where
  "round_half_even x =
     (let f = \<lfloor>x\<rfloor>; d = x - of_int f
      in if d < 1 / 2 then f else if 1 / 2 < d then f + 1 else if even f then f else f + 1)"

definition two_pow :: "int \<Rightarrow> real" where
  "two_pow e = (if 0 \<le> e then 2 ^ nat e else 1 / 2 ^ nat (- e))"

definition ilog2 :: "real \<Rightarrow> int" where
  \<comment> \<open>for \<open>0 < a\<close>, the integer \<open>k\<close> with \<open>2 ^ k \<le> a < 2 ^ (k + 1)\<close>\<close>
  "ilog2 a = (if 1 \<le> a then int (floorlog 2 (nat \<lfloor>a\<rfloor>)) - 1
              else - int (floorlog 2 (nat (\<lceil>1 / a\<rceil> - 1))))"

definition round64 :: "real \<Rightarrow> pyfloat" where
  "round64 x =
     (if x = 0 then Fin 0
      else let a = \<bar>x\<bar>;
               e = max (ilog2 a - 52) (- 1074);
               v = of_int (round_half_even (a / two_pow e)) * two_pow e
           in if 2 ^ 1024 \<le> v then (if x < 0 then NegInf else PosInf)
              else Fin (if x < 0 then - v else v))"

fun fadd :: "pyfloat \<Rightarrow> pyfloat \<Rightarrow> pyfloat" where
  \<comment> \<open>\<^verbatim>\<open>x + y\<close> on floats\<close>
  "fadd (Fin x) (Fin y) = round64 (x + y)"
| "fadd NaN _ = NaN"
| "fadd _ NaN = NaN"
| "fadd PosInf NegInf = NaN"
| "fadd NegInf PosInf = NaN"
| "fadd PosInf _ = PosInf"
| "fadd NegInf _ = NegInf"
| "fadd _ PosInf = PosInf"
| "fadd _ NegInf = NegInf"

fun round2 :: "pyfloat \<Rightarrow> pyfloat" where
  \<comment> \<open>\<^verbatim>\<open>round(x, 2)\<close>: the double nearest to the exact value rounded to two decimals,
      ties to even; infinities and NaN are returned as they are\<close>
  "round2 (Fin x) = round64 (of_int (round_half_even (x * 100)) / 100)"
| "round2 f = f"

fun float_truthy :: "pyfloat \<Rightarrow> bool" where
  "float_truthy (Fin x) = (x \<noteq> 0)"
| "float_truthy _ = True"

fun int_of_float :: "pyfloat \<Rightarrow> error + int" where
  \<comment> \<open>\<^verbatim>\<open>int(x)\<close> on a float: truncation towards zero\<close>
  "int_of_float (Fin x) = Inr (if 0 \<le> x then \<lfloor>x\<rfloor> else \<lceil>x\<rceil>)"
| "int_of_float NaN = Inl ValueError"
| "int_of_float _ = Inl OverflowError"

definition digit_val :: "char \<Rightarrow> nat" where
  "digit_val c = ord c - 0x30"

definition digits_val :: "string \<Rightarrow> nat" where
  "digits_val ds = foldl (\<lambda>n c. 10 * n + digit_val c) 0 ds"

definition float_unsigned :: "string \<Rightarrow> error + pyfloat" where
  \<comment> \<open>digits, then maybe a point and digits; at least one digit in all\<close>
  "float_unsigned s =
     (let ip = takeWhile is_digit s; r = dropWhile is_digit s
      in case r of
           [] \<Rightarrow> if ip = [] then Inl ValueError else Inr (round64 (of_nat (digits_val ip)))
         | c # fp \<Rightarrow>
             if c = CHR ''.'' \<and> list_all is_digit fp \<and> ip @ fp \<noteq> []
             then Inr (round64 (of_nat (digits_val (ip @ fp)) / 10 ^ length fp))
             else Inl ValueError)"

fun fneg :: "pyfloat \<Rightarrow> pyfloat" where
  "fneg (Fin x) = Fin (- x)"
| "fneg PosInf = NegInf"
| "fneg NegInf = PosInf"
| "fneg NaN = NaN"

definition py_float :: "string \<Rightarrow> error + pyfloat" where
  \<comment> \<open>\<^verbatim>\<open>float(s)\<close> for a string of digits, points and signs, which is all the program passes
      to it (the groups \<^verbatim>\<open>[0-9.-]+\<close>, \<^verbatim>\<open>[0-9,.]+\<close> without its commas, and
      \<^verbatim>\<open>[0-9]+\.[0-9]{2}\<close>): an optional sign and an unsigned decimal. Exponents, \<^verbatim>\<open>inf\<close>,
      \<^verbatim>\<open>nan\<close>, underscores and surrounding whitespace cannot occur there.\<close>
  "py_float s =
     (case s of
        [] \<Rightarrow> Inl ValueError
      | c # cs \<Rightarrow>
          if c = CHR ''-'' then map_sum id fneg (float_unsigned cs)
          else if c = CHR ''+'' then float_unsigned cs
          else float_unsigned s)"

section \<open>The patterns of the program\<close>

definition upper_alnum_dash :: atom where
  \<comment> \<open>\<^verbatim>\<open>[A-Z0-9-]\<close>\<close>
  "upper_alnum_dash = ASet [(CHR ''A'', CHR ''Z''), (CHR ''0'', CHR ''9''), (CHR ''-'', CHR ''-'')]"

definition upper_alnum :: atom where
  \<comment> \<open>\<^verbatim>\<open>[A-Z0-9]\<close>\<close>
  "upper_alnum = ASet [(CHR ''A'', CHR ''Z''), (CHR ''0'', CHR ''9'')]"

definition digit_dash :: atom where
  \<comment> \<open>\<^verbatim>\<open>[0-9-]\<close>\<close>
  "digit_dash = ASet [(CHR ''0'', CHR ''9''), (CHR ''-'', CHR ''-'')]"

definition digit09 :: atom where
  \<comment> \<open>\<^verbatim>\<open>[0-9]\<close>\<close>
  "digit09 = ASet [(CHR ''0'', CHR ''9'')]"

definition num_dot_dash :: atom where
  \<comment> \<open>\<^verbatim>\<open>[0-9.-]\<close>\<close>
  "num_dot_dash = ASet [(CHR ''0'', CHR ''9''), (CHR ''.'', CHR ''.''), (CHR ''-'', CHR ''-'')]"

definition num_comma_dot :: atom where
  \<comment> \<open>\<^verbatim>\<open>[0-9,.]\<close>\<close>
  "num_comma_dot = ASet [(CHR ''0'', CHR ''9''), (CHR '','', CHR '',''), (CHR ''.'', CHR ''.'')]"

definition invoice_re :: rx where
  \<comment> \<open>\<^verbatim>\<open>Reference No\.\s*([A-Z0-9-]+)\<close>\<close>
  "invoice_re = Cat [Lit ''Reference No.'', Star ASpace, Grp 1 (Plus upper_alnum_dash)]"

definition date_re :: rx where
  \<comment> \<open>\<^verbatim>\<open>\bDate:\s*(\d{1,2}/\d{1,2}/\d{4})\<close>\<close>
  "date_re = Cat [WordB, Lit ''Date:'', Star ASpace,
                  Grp 1 (Cat [Rep 1 (Some 2) True ADigit, Lit ''/'',
                              Rep 1 (Some 2) True ADigit, Lit ''/'',
                              Rep 4 (Some 4) True ADigit])]"

definition so_re :: rx where
  \<comment> \<open>\<^verbatim>\<open>SO\s*NUMBER\s*([0-9-]+)\<close>, with IGNORECASE\<close>
  "so_re = Cat [Lit ''SO'', Star ASpace, Lit ''NUMBER'', Star ASpace, Grp 1 (Plus digit_dash)]"

definition shipment_re :: rx where
  \<comment> \<open>\<^verbatim>\<open>Shipment Number\s*([0-9-]+)\<close>, with IGNORECASE\<close>
  "shipment_re = Cat [Lit ''Shipment Number'', Star ASpace, Grp 1 (Plus digit_dash)]"

definition tracking_re :: rx where
  \<comment> \<open>\<^verbatim>\<open>Tracking\s*#\s*([A-Z0-9]+)\<close>, with IGNORECASE\<close>
  "tracking_re = Cat [Lit ''Tracking'', Star ASpace, Lit ''#'', Star ASpace,
                      Grp 1 (Plus upper_alnum)]"

definition tracking2_re :: rx where
  \<comment> \<open>\<^verbatim>\<open>TRACKING NUMBER\s*\n([A-Z0-9]+)\<close>\<close>
  "tracking2_re = Cat [Lit ''TRACKING NUMBER'', Star ASpace, Lit [CHR 0x0A],
                       Grp 1 (Plus upper_alnum)]"

definition table_re :: rx where
  \<comment> \<open>\<^verbatim>\<open>NO\.\s*ITEM.*?AMOUNT\n(.*?)\n(?:THANK YOU|Sales Total|Freight Total)\<close>,
      with DOTALL and IGNORECASE\<close>
  "table_re = Cat [Lit ''NO.'', Star ASpace, Lit ''ITEM'', LazyStar AAny, Lit ''AMOUNT'',
                   Lit [CHR 0x0A], Grp 1 (LazyStar AAny), Lit [CHR 0x0A],
                   Alt (Lit ''THANK YOU'') (Alt (Lit ''Sales Total'') (Lit ''Freight Total''))]"

definition chrome_re :: rx where
  \<comment> \<open>\<^verbatim>\<open>^(NO\.|ITEM|EACH\s+ORDERED|SHIP VIA|SO TYPE)\<close>, with IGNORECASE\<close>
  "chrome_re = Cat [Bol,
                    Grp 1 (Alt (Lit ''NO.'') (Alt (Lit ''ITEM'')
                          (Alt (Cat [Lit ''EACH'', Plus ASpace, Lit ''ORDERED''])
                          (Alt (Lit ''SHIP VIA'') (Lit ''SO TYPE'')))))]"

definition freight_re :: rx where
  \<comment> \<open>\<^verbatim>\<open>\bFreight\b\<close>, with IGNORECASE\<close>
  "freight_re = Cat [WordB, Lit ''Freight'', WordB]"

definition amount_re :: rx where
  \<comment> \<open>\<^verbatim>\<open>([0-9]+\.[0-9]{2})\s*$\<close>\<close>
  "amount_re = Cat [Grp 1 (Cat [Plus digit09, Lit ''.'', Rep 2 (Some 2) True digit09]),
                    Star ASpace, Eol]"

definition full_re :: rx where
  \<comment> \<open>\<^verbatim>\<open>^\d+\s+([A-Z0-9-]+):?\s+(.*?)\s+EACH\s+([0-9.-]+)\s+([0-9.-]+)\s+([0-9.-]+)\s+([0-9,.]+)\s+([0-9,.]+)$\<close>\<close>
  "full_re = Cat [Bol, Plus ADigit, Plus ASpace, Grp 1 (Plus upper_alnum_dash),
                  Opt (AChar CHR '':''), Plus ASpace, Grp 2 (LazyStar AAny), Plus ASpace,
                  Lit ''EACH'', Plus ASpace,
                  Grp 3 (Plus num_dot_dash), Plus ASpace,
                  Grp 4 (Plus num_dot_dash), Plus ASpace,
                  Grp 5 (Plus num_dot_dash), Plus ASpace,
                  Grp 6 (Plus num_comma_dot), Plus ASpace,
                  Grp 7 (Plus num_comma_dot), Eol]"

definition short_re :: rx where
  \<comment> \<open>\<^verbatim>\<open>^\d+\s+([A-Z0-9-]+):?\s+(.*?)\s+([0-9,.]+)\s+([0-9,.]+)$\<close>\<close>
  "short_re = Cat [Bol, Plus ADigit, Plus ASpace, Grp 1 (Plus upper_alnum_dash),
                   Opt (AChar CHR '':''), Plus ASpace, Grp 2 (LazyStar AAny), Plus ASpace,
                   Grp 3 (Plus num_comma_dot), Plus ASpace,
                   Grp 4 (Plus num_comma_dot), Eol]"

section \<open>parse_header\<close>

type_synonym header = "string \<rightharpoonup> string"

definition parse_header :: "string \<Rightarrow> header" where
  "parse_header text =
     (let hdr = Map.empty;
          hdr = (case re_search False False invoice_re text of
                   Some m \<Rightarrow> hdr(''invoice_no'' \<mapsto> group m 1) | None \<Rightarrow> hdr);
          hdr = (case re_search False False date_re text of
                   Some m \<Rightarrow> hdr(''purchase_date'' \<mapsto> group m 1) | None \<Rightarrow> hdr);
          hdr = (case re_search True False so_re text of
                   Some m \<Rightarrow> hdr(''so_number'' \<mapsto> group m 1) | None \<Rightarrow> hdr);
          hdr = (case re_search True False shipment_re text of
                   Some m \<Rightarrow> hdr(''shipment_number'' \<mapsto> group m 1) | None \<Rightarrow> hdr);
          m = (case re_search True False tracking_re text of
                 None \<Rightarrow> re_search False False tracking2_re text
               | Some m \<Rightarrow> Some m);
          hdr = (case m of Some m \<Rightarrow> hdr(''tracking'' \<mapsto> group m 1) | None \<Rightarrow> hdr)
      in hdr)"

section \<open>parse_lines\<close>

datatype num = NInt int | NFloat pyfloat   \<comment> \<open>a Python number: \<^verbatim>\<open>int\<close> or \<^verbatim>\<open>float\<close>\<close>

text \<open>
  A line item is the dictionary \<^verbatim>\<open>parse_lines\<close> builds, with the types of its values; a key
  that the dictionary does not have is the field \<open>None\<close> (\<^verbatim>\<open>to_craftybase_rows\<close> reads
  every key with \<^verbatim>\<open>get\<close>).
\<close>

record line_item =
  sku :: "string option"
  name :: "string option"
  qty :: "num option"
  price_subtotal :: "pyfloat option"
  shipping :: "pyfloat option"

definition mk_item :: "string \<Rightarrow> string \<Rightarrow> num \<Rightarrow> pyfloat \<Rightarrow> pyfloat \<Rightarrow> line_item" where
  \<comment> \<open>the dictionary display with all five keys\<close>
  "mk_item s n q p sh =
     \<lparr>sku = Some s, name = Some n, qty = Some q, price_subtotal = Some p, shipping = Some sh\<rparr>"

definition remove_commas :: "string \<Rightarrow> string" where
  \<comment> \<open>\<^verbatim>\<open>s.replace(',', '')\<close>\<close>
  "remove_commas s = filter (\<lambda>c. c \<noteq> CHR '','') s"

definition parse_line :: "string \<Rightarrow> error + line_item option" where
  \<comment> \<open>the body of the loop of \<^verbatim>\<open>parse_lines\<close> for the line \<^verbatim>\<open>raw\<close>: the item it appends,
      if any, or the exception it raises\<close>
  "parse_line raw =
     (let s = clean raw in
      if s = [] then Inr None
      else if re_search True False chrome_re s \<noteq> None then Inr None
      else if re_search True False freight_re s \<noteq> None then
        (case (case re_search False False amount_re s of
                 Some m_amt \<Rightarrow> py_float (group m_amt 1)
               | None \<Rightarrow> Inr (Fin 0)) of
           Inl e \<Rightarrow> Inl e
         | Inr ship_amt \<Rightarrow>
             Inr (Some (mk_item [] ''Freight - UPS Ground'' (NInt 1) (Fin 0) ship_amt)))
      else
        (case re_search False False full_re s of
           None \<Rightarrow>
             (case re_search False False short_re s of
                Some m \<Rightarrow>
                  (let amt_val = (case py_float (remove_commas (group m 4)) of
                                    Inr v \<Rightarrow> v | Inl e \<Rightarrow> Fin 0)
                   in Inr (Some (mk_item (group m 1) (group m 2) (NInt 1) amt_val (Fin 0))))
              | None \<Rightarrow> Inr None)
         | Some m \<Rightarrow>
             (case (if group m 3 \<noteq> [] then map_sum id NFloat (py_float (group m 3))
                    else Inr (NInt 1)) of
                Inl e \<Rightarrow> Inl e
              | Inr q \<Rightarrow>
                  (case (if group m 7 \<noteq> [] then py_float (remove_commas (group m 7))
                         else Inr (Fin 0)) of
                     Inl e \<Rightarrow> Inl e
                   | Inr amount \<Rightarrow>
                       Inr (Some (mk_item (group m 1) (group m 2) q amount (Fin 0)))))))"

fun scan_lines :: "string list \<Rightarrow> error + line_item list" where
  \<comment> \<open>the loop over the lines: an exception ends it\<close>
  "scan_lines [] = Inr []"
| "scan_lines (raw # rest) =
     (case parse_line raw of
        Inl e \<Rightarrow> Inl e
      | Inr it \<Rightarrow>
          (case scan_lines rest of
             Inl e \<Rightarrow> Inl e
           | Inr its \<Rightarrow> Inr ((case it of None \<Rightarrow> [] | Some i \<Rightarrow> [i]) @ its)))"

definition parse_lines :: "string \<Rightarrow> error + line_item list" where
  "parse_lines text =
     (let block = (case re_search True True table_re text of
                     Some tab_m \<Rightarrow> group tab_m 1 | None \<Rightarrow> text)
      in scan_lines (splitlines block))"

section \<open>to_craftybase_rows\<close>

text \<open>
  A row is the dictionary built for each item, with the fifteen keys of \<^verbatim>\<open>COLUMNS\<close>; the
  data frame returned is modelled by the list of rows it is built from. The field \<open>row_notes\<close> (the key \<^verbatim>\<open>notes\<close>)
  holds the parts that the program joins with a bullet between two spaces (the bullet is
  the code point 0x2022, beyond the characters of \<^typ>\<open>string\<close>), \<open>None\<close> when there are no
  parts. The key \<^verbatim>\<open>shipping\<close> of a row is the field \<open>row_shipping\<close>.
\<close>

record export_row =
  purchase_date :: "string option"
  code :: "string option"
  material_sku :: string
  material_name :: string
  vendor :: string
  lot_number :: string
  row_notes :: "string list option"
  line_item_quantity :: int
  line_item_category_id :: string
  line_item_price :: pyfloat
  tax :: pyfloat
  row_shipping :: pyfloat
  discount :: pyfloat
  grand_total :: pyfloat
  paid :: string

definition VENDOR_NAME :: string where
  "VENDOR_NAME = ''Grand Brass Lamp Parts, LLC.''"

definition truthy_get :: "header \<Rightarrow> string \<Rightarrow> bool" where
  \<comment> \<open>\<^verbatim>\<open>if meta.get(k)\<close>: the key is there and its string is not empty\<close>
  "truthy_get meta k = (case meta k of None \<Rightarrow> False | Some v \<Rightarrow> v \<noteq> [])"

definition note_parts :: "header \<Rightarrow> string list" where
  "note_parts meta =
     (if truthy_get meta ''so_number'' then [''SO '' @ the (meta ''so_number'')] else [])
     @ (if truthy_get meta ''shipment_number''
        then [''Shipment '' @ the (meta ''shipment_number'')] else [])
     @ (if truthy_get meta ''tracking'' then [''Tracking '' @ the (meta ''tracking'')] else [])"

definition float_or_zero :: "pyfloat option \<Rightarrow> pyfloat" where
  \<comment> \<open>\<^verbatim>\<open>float(it.get(k) or 0.0)\<close>: a missing key and a zero give \<^verbatim>\<open>0.0\<close>\<close>
  "float_or_zero v =
     (case v of None \<Rightarrow> Fin 0 | Some f \<Rightarrow> if float_truthy f then f else Fin 0)"

definition int_or_one :: "num option \<Rightarrow> error + int" where
  \<comment> \<open>\<^verbatim>\<open>int(it.get('qty') or 1)\<close>\<close>
  "int_or_one v =
     (case v of
        None \<Rightarrow> Inr 1
      | Some (NInt n) \<Rightarrow> Inr (if n \<noteq> 0 then n else 1)
      | Some (NFloat f) \<Rightarrow> if float_truthy f then int_of_float f else Inr 1)"

definition get_str :: "string option \<Rightarrow> string" where
  \<comment> \<open>\<^verbatim>\<open>it.get(k, '')\<close>\<close>
  "get_str v = (case v of None \<Rightarrow> [] | Some s \<Rightarrow> s)"

definition is_freight :: "line_item \<Rightarrow> bool" where
  "is_freight it = (get_str (sku it) = [] \<and> contains ''freight'' (lower (get_str (name it))))"

definition make_row :: "header \<Rightarrow> string list option \<Rightarrow> line_item \<Rightarrow> error + export_row" where
  \<comment> \<open>the body of the loop of \<^verbatim>\<open>to_craftybase_rows\<close>: the row of one item\<close>
  "make_row meta nts it =
     (case int_or_one (qty it) of
        Inl e \<Rightarrow> Inl e
      | Inr q \<Rightarrow>
          Inr \<lparr>purchase_date = meta ''purchase_date'',
               code = meta ''invoice_no'',
               material_sku = get_str (sku it),
               material_name = get_str (name it),
               vendor = VENDOR_NAME,
               lot_number = [],
               row_notes = nts,
               line_item_quantity = q,
               line_item_category_id = (if is_freight it then ''Shipping'' else ''Materials''),
               line_item_price =
                 (if is_freight it then Fin 0 else round2 (float_or_zero (price_subtotal it))),
               tax = Fin 0,
               row_shipping = round2 (float_or_zero (shipping it)),
               discount = Fin 0,
               grand_total =
                 round2 (fadd (float_or_zero (price_subtotal it)) (float_or_zero (shipping it))),
               paid = ''Y''\<rparr>)"

fun make_rows :: "header \<Rightarrow> string list option \<Rightarrow> line_item list \<Rightarrow> error + export_row list" where
  "make_rows meta nts [] = Inr []"
| "make_rows meta nts (it # its) =
     (case make_row meta nts it of
        Inl e \<Rightarrow> Inl e
      | Inr r \<Rightarrow> (case make_rows meta nts its of Inl e \<Rightarrow> Inl e | Inr rs \<Rightarrow> Inr (r # rs)))"

definition to_craftybase_rows :: "header \<Rightarrow> line_item list \<Rightarrow> error + export_row list" where
  "to_craftybase_rows meta items =
     (let parts = note_parts meta;
          nts = (if parts \<noteq> [] then Some parts else None)
      in make_rows meta nts items)"

section \<open>What a match consumes and captures\<close>

text \<open>
  A declarative reading of the patterns, for the proofs: \<open>accepts\<close> is the set of strings a
  pattern can consume (anchors and word boundaries consume nothing and are not checked
  here), \<open>groups\<close> lists the groups of a pattern with their bodies, and \<open>sets_group n r\<close>
  says that every match of \<open>r\<close> goes through group \<open>n\<close>.
\<close>

inductive accepts :: "bool \<Rightarrow> bool \<Rightarrow> rx \<Rightarrow> string \<Rightarrow> bool" for ic da where
  acc_atom: "atom_ok ic da a x \<Longrightarrow> accepts ic da (Atom a) [x]"
| acc_lit: "list_all2 (\<lambda>c x. atom_ok ic False (AChar c) x) s w \<Longrightarrow> accepts ic da (Lit s) w"
| acc_bol: "accepts ic da Bol []"
| acc_eol: "accepts ic da Eol []"
| acc_wordb: "accepts ic da WordB []"
| acc_nil: "accepts ic da (Cat []) []"
| acc_cons: "accepts ic da r u \<Longrightarrow> accepts ic da (Cat rs) v \<Longrightarrow> accepts ic da (Cat (r # rs)) (u @ v)"
| acc_alt1: "accepts ic da r1 w \<Longrightarrow> accepts ic da (Alt r1 r2) w"
| acc_alt2: "accepts ic da r2 w \<Longrightarrow> accepts ic da (Alt r1 r2) w"
| acc_rep: "list_all (atom_ok ic da a) w \<Longrightarrow> lo \<le> length w
            \<Longrightarrow> (case hi of None \<Rightarrow> True | Some h \<Rightarrow> length w \<le> h)
            \<Longrightarrow> accepts ic da (Rep lo hi g a) w"
| acc_grp: "accepts ic da r w \<Longrightarrow> accepts ic da (Grp n r) w"

fun groups :: "rx \<Rightarrow> (nat \<times> rx) list" where
  "groups (Grp n r) = (n, r) # groups r"
| "groups (Cat rs) = concat (map groups rs)"
| "groups (Alt r1 r2) = groups r1 @ groups r2"
| "groups _ = []"

fun sets_group :: "nat \<Rightarrow> rx \<Rightarrow> bool" where
  "sets_group n (Grp k r) = (k = n \<or> sets_group n r)"
| "sets_group n (Cat rs) = list_ex (sets_group n) rs"
| "sets_group n (Alt r1 r2) = (sets_group n r1 \<and> sets_group n r2)"
| "sets_group n _ = False"

definition first_group :: "caps option \<Rightarrow> string option" where
  \<comment> \<open>the text that group 1 of a search result has captured: \<open>None\<close> without a match\<close>
  "first_group res = (case res of None \<Rightarrow> None | Some m \<Rightarrow> map_of m 1)"

section \<open>Example inputs\<close>

text \<open>Concrete items, rows and texts on which the theorems below are run.\<close>

abbreviation freight_item_ex :: line_item where
  "freight_item_ex \<equiv> mk_item [] ''Freight - UPS Ground'' (NInt 1) (Fin 0)
                        (Fin (3473401212609495 / 281474976710656))"

abbreviation freight_row_ex :: export_row where
  "freight_row_ex \<equiv>
     \<lparr>purchase_date = None, code = None, material_sku = [],
      material_name = ''Freight - UPS Ground'',
      vendor = ''Grand Brass Lamp Parts, LLC.'', lot_number = [], row_notes = None,
      line_item_quantity = 1, line_item_category_id = ''Shipping'',
      line_item_price = Fin 0, tax = Fin 0,
      row_shipping = Fin (3473401212609495 / 281474976710656), discount = Fin 0,
      grand_total = Fin (3473401212609495 / 281474976710656), paid = ''Y''\<rparr>"

abbreviation air_item_ex :: line_item where
  "air_item_ex \<equiv> mk_item [] ''Air FREIGHT'' (NInt 1) (Fin 5) (Fin (5 / 4))"

abbreviation air_row_ex :: export_row where
  "air_row_ex \<equiv>
     \<lparr>purchase_date = None, code = None, material_sku = [],
      material_name = ''Air FREIGHT'',
      vendor = ''Grand Brass Lamp Parts, LLC.'', lot_number = [], row_notes = None,
      line_item_quantity = 1, line_item_category_id = ''Shipping'',
      line_item_price = Fin 0, tax = Fin 0,
      row_shipping = Fin (5 / 4), discount = Fin 0,
      grand_total = Fin (25 / 4), paid = ''Y''\<rparr>"

abbreviation frac_item_ex :: line_item where
  "frac_item_ex \<equiv> mk_item ''AB-1'' ''Thing''
                     (NFloat (Fin (3039929748475085 / 1125899906842624))) (Fin 4) (Fin 0)"

abbreviation frac_row_ex :: export_row where
  "frac_row_ex \<equiv>
     \<lparr>purchase_date = None, code = None, material_sku = ''AB-1'',
      material_name = ''Thing'',
      vendor = ''Grand Brass Lamp Parts, LLC.'', lot_number = [], row_notes = None,
      line_item_quantity = 2, line_item_category_id = ''Materials'',
      line_item_price = Fin 4, tax = Fin 0,
      row_shipping = Fin 0, discount = Fin 0,
      grand_total = Fin 4, paid = ''Y''\<rparr>"

abbreviation table_text_ex :: string where
  "table_text_ex \<equiv> ''NO. ITEM DESC EACH AMOUNT'' @ [CHR 0x0A] @ ''1 AB-1: Thing 2.00 4.00''
                    @ [CHR 0x0A] @ ''Freight 1.25'' @ [CHR 0x0A] @ ''Sales Total 4.00''"

abbreviation plain_text_ex :: string where
  "plain_text_ex \<equiv> ''1 AB-1: Thing 2.00 4.00'' @ [CHR 0x0A] @ ''Freight 1.25''"

abbreviation zero_items_ex :: "line_item list" where
  "zero_items_ex \<equiv>
     [\<lparr>sku = Some ''A-1'', name = Some ''Nut'', qty = None,
       price_subtotal = Some (Fin 2), shipping = Some (Fin 0)\<rparr>,
      mk_item ''A-2'' ''Bolt'' (NInt 0) (Fin 2) (Fin 0),
      mk_item ''A-3'' ''Washer'' (NFloat (Fin 0)) (Fin 2) (Fin 0)]"

abbreviation header_text_ex :: string where
  "header_text_ex \<equiv> ''Reference No. ABC-123 x Date: 4/5/2024''"

section \<open>Evaluation\<close>

text \<open>Rules that let the simplifier run the definitions on a concrete text.\<close>

lemma floorlog_numeral: "floorlog 2 (numeral n) = floorlog 2 (numeral n div 2) + 1"
  by (subst compute_floorlog) simp

lemma floorlog_small: "floorlog 2 0 = 0" "floorlog 2 (Suc 0) = 1" "floorlog 2 1 = 1"
  by (simp_all add: compute_floorlog)

lemmas fl_eval = py_float_def float_unsigned_def digits_val_def digit_val_def round64_def
  ilog2_def two_pow_def round_half_even_def Let_def floorlog_numeral floorlog_small

lemmas ch_eval = char_of_def ord_def in_range_def is_space_def is_digit_def is_word_def
  lower_char_def upper_ascii_def in_set_def boundary_def

lemmas re_eval = re_search_def group_def upper_alnum_dash_def upper_alnum_def digit_dash_def
  digit09_def num_dot_dash_def num_comma_dot_def

lemmas pat_eval = invoice_re_def date_re_def so_re_def shipment_re_def tracking_re_def
  tracking2_re_def table_re_def chrome_re_def freight_re_def amount_re_def full_re_def
  short_re_def

lemmas line_eval = parse_lines_def parse_line_def splitlines_def is_linebreak_def clean_def
  strip_def mk_item_def remove_commas_def

section \<open>The full item line of the specification\<close>

lemma full_line_eval:
  "parse_lines ''12 BR-100: Brass Collar EACH 2.50 2.50 0.00 3 7.50''
   = Inr [mk_item ''BR-100'' ''Brass Collar'' (NFloat (Fin (5 / 2))) (Fin (15 / 2)) (Fin 0)]"
  by (simp add: line_eval pat_eval re_eval ch_eval fl_eval)

text \<open>
  C1 (as amended). The line \<^verbatim>\<open>12 BR-100: Brass Collar EACH 2.50 2.50 0.00 3 7.50\<close> gives
  exactly one item, with sku \<^verbatim>\<open>BR-100\<close>, name \<^verbatim>\<open>Brass Collar\<close>, price subtotal 7.5 and
  shipping 0.0; its quantity is the first number after \<^verbatim>\<open>EACH\<close> (the third group of the
  pattern), which is 2.5.
\<close>

theorem full_item_line:
  "parse_lines ''12 BR-100: Brass Collar EACH 2.50 2.50 0.00 3 7.50''
   = Inr [\<lparr>sku = Some ''BR-100'', name = Some ''Brass Collar'',
            qty = Some (NFloat (Fin (5 / 2))), price_subtotal = Some (Fin (15 / 2)),
            shipping = Some (Fin 0)\<rparr>]"
  by (simp add: full_line_eval mk_item_def)

text \<open>
  C1 as stated fails: the item returned for that line does not have the quantity 3,
  neither as the integer 3 nor as the float 3.0.
\<close>

theorem full_item_line_qty_not_3:
  "parse_lines ''12 BR-100: Brass Collar EACH 2.50 2.50 0.00 3 7.50''
     \<noteq> Inr [\<lparr>sku = Some ''BR-100'', name = Some ''Brass Collar'',
              qty = Some (NInt 3), price_subtotal = Some (Fin (15 / 2)),
              shipping = Some (Fin 0)\<rparr>]
   \<and> parse_lines ''12 BR-100: Brass Collar EACH 2.50 2.50 0.00 3 7.50''
     \<noteq> Inr [\<lparr>sku = Some ''BR-100'', name = Some ''Brass Collar'',
              qty = Some (NFloat (Fin 3)), price_subtotal = Some (Fin (15 / 2)),
              shipping = Some (Fin 0)\<rparr>]"
  by (simp add: full_line_eval mk_item_def)

section \<open>Exceptions of parse_lines\<close>

text \<open>
  C2 fails on the code. On a line that matches the full item pattern, the quantity and the
  amount are passed to \<^verbatim>\<open>float\<close> outside any \<^verbatim>\<open>try\<close>: a quantity field \<^verbatim>\<open>-\<close>, and an amount
  field \<^verbatim>\<open>,\<close> (empty once its comma is removed), each make \<^verbatim>\<open>parse_lines\<close> raise
  \<^verbatim>\<open>ValueError\<close>.
\<close>

theorem parse_lines_raises:
  "parse_lines ''1 A B EACH - 1 1 1 1'' = Inl ValueError
   \<and> parse_lines ''1 A B EACH 1 1 1 1 ,'' = Inl ValueError"
  by (simp add: line_eval pat_eval re_eval ch_eval fl_eval)

section \<open>Rows\<close>


lemma make_rows_nth:
  "make_rows meta nts items = Inr rows \<Longrightarrow>
   length rows = length items \<and> (\<forall>i<length items. make_row meta nts (items ! i) = Inr (rows ! i))"
proof (induction items arbitrary: rows)
  case Nil
  then show ?case by simp
next
  case (Cons it its)
  from Cons.prems obtain r rs where r: "make_row meta nts it = Inr r"
    and rs: "make_rows meta nts its = Inr rs" and rows: "rows = r # rs"
    by (auto split: sum.splits)
  from Cons.IH[OF rs] have len: "length rs = length its"
    and nth: "\<forall>i<length its. make_row meta nts (its ! i) = Inr (rs ! i)" by simp_all
  show ?case
  proof (intro conjI allI impI)
    show "length rows = length (it # its)" using len rows by simp
  next
    fix i assume "i < length (it # its)"
    then show "make_row meta nts ((it # its) ! i) = Inr (rows ! i)"
      using r nth rows by (cases i) simp_all
  qed
qed

lemma rows_nth:
  assumes "to_craftybase_rows meta items = Inr rows" "i < length items"
  shows "\<exists>nts. make_row meta nts (items ! i) = Inr (rows ! i)"
  using assms make_rows_nth unfolding to_craftybase_rows_def Let_def by blast

lemma rows_length:
  "to_craftybase_rows meta items = Inr rows \<Longrightarrow> length rows = length items"
  using make_rows_nth unfolding to_craftybase_rows_def Let_def by blast

lemma float_or_zero_eq:
  "float_or_zero v = (case v of None \<Rightarrow> Fin 0 | Some f \<Rightarrow> f)"
  by (cases v; simp add: float_or_zero_def) (metis float_truthy.elims(3))

lemma make_row_fields:
  assumes "make_row meta nts it = Inr r"
  shows "grand_total r = round2 (fadd (float_or_zero (price_subtotal it)) (float_or_zero (shipping it)))"
    and "line_item_category_id r = (if is_freight it then ''Shipping'' else ''Materials'')"
    and "line_item_price r = (if is_freight it then Fin 0 else round2 (float_or_zero (price_subtotal it)))"
    and "row_shipping r = round2 (float_or_zero (shipping it))"
    and "int_or_one (qty it) = Inr (line_item_quantity r)"
  using assms by (auto simp: make_row_def split: sum.splits)

text \<open>
  C4. Every row that \<^verbatim>\<open>to_craftybase_rows\<close> returns belongs to one item (there are as many
  rows as items), and its \<open>grand_total\<close> is \<^verbatim>\<open>round(price_subtotal + shipping, 2)\<close> of the
  item's own price subtotal and shipping, which are not rounded before they are added (a key
  that the item does not have counts as 0.0).
\<close>

theorem grand_total_rounded_sum:
  assumes "to_craftybase_rows meta items = Inr rows" and "i < length items"
  shows "length rows = length items \<and>
         grand_total (rows ! i) =
           round2 (fadd (case price_subtotal (items ! i) of None \<Rightarrow> Fin 0 | Some p \<Rightarrow> p)
                        (case shipping (items ! i) of None \<Rightarrow> Fin 0 | Some s \<Rightarrow> s))"
proof -
  from rows_nth[OF assms] obtain nts where "make_row meta nts (items ! i) = Inr (rows ! i)" ..
  from make_row_fields(1)[OF this] show ?thesis
    using rows_length[OF assms(1)] by (simp add: float_or_zero_eq)
qed


lemmas row_eval = to_craftybase_rows_def make_row_def note_parts_def truthy_get_def
  float_or_zero_def int_or_one_def get_str_def is_freight_def lower_def VENDOR_NAME_def
  mk_item_def

lemma freight_rows_eval:
  "to_craftybase_rows Map.empty [freight_item_ex] = Inr [freight_row_ex]"
  by (simp add: row_eval ch_eval fl_eval bit_Suc_0_iff)

text \<open>The theorem on a concrete input.\<close>

theorem grand_total_rounded_sum_witness:
  "to_craftybase_rows Map.empty [freight_item_ex] = Inr [freight_row_ex]
   \<and> (0::nat) < length [freight_item_ex]
   \<and> length [freight_row_ex] = length [freight_item_ex]
   \<and> grand_total ([freight_row_ex] ! 0) =
       round2 (fadd (case price_subtotal ([freight_item_ex] ! 0) of None \<Rightarrow> Fin 0 | Some p \<Rightarrow> p)
                    (case shipping ([freight_item_ex] ! 0) of None \<Rightarrow> Fin 0 | Some s \<Rightarrow> s))"
proof -
  have len: "(0::nat) < length [freight_item_ex]" by simp
  show ?thesis
    using freight_rows_eval len grand_total_rounded_sum[OF freight_rows_eval len] by blast
qed

text \<open>
  C6. The category of a row is \<^verbatim>\<open>Shipping\<close> if and only if the item's sku is the empty
  string and its name, in lower case, contains \<^verbatim>\<open>freight\<close>, and \<^verbatim>\<open>Materials\<close> otherwise; the
  price of such a freight row is 0.0 whatever the item's price subtotal is; the row's
  shipping is the item's shipping (rounded to two decimals), whatever the category.
\<close>

theorem category_price_shipping:
  assumes "to_craftybase_rows meta items = Inr rows" and "i < length items"
  shows "(line_item_category_id (rows ! i) = ''Shipping'')
           = (get_str (sku (items ! i)) = []
              \<and> contains ''freight'' (lower (get_str (name (items ! i)))))
         \<and> line_item_category_id (rows ! i)
           = (if get_str (sku (items ! i)) = []
                 \<and> contains ''freight'' (lower (get_str (name (items ! i))))
              then ''Shipping'' else ''Materials'')
         \<and> line_item_price (rows ! i)
           = (if get_str (sku (items ! i)) = []
                 \<and> contains ''freight'' (lower (get_str (name (items ! i))))
              then Fin 0
              else round2 (case price_subtotal (items ! i) of None \<Rightarrow> Fin 0 | Some p \<Rightarrow> p))
         \<and> row_shipping (rows ! i)
           = round2 (case shipping (items ! i) of None \<Rightarrow> Fin 0 | Some s \<Rightarrow> s)"
proof -
  from rows_nth[OF assms] obtain nts where "make_row meta nts (items ! i) = Inr (rows ! i)" ..
  from make_row_fields(2,3,4)[OF this] show ?thesis
    by (simp add: float_or_zero_eq is_freight_def)
qed


lemma air_rows_eval:
  "to_craftybase_rows Map.empty [air_item_ex] = Inr [air_row_ex]"
  by (simp add: row_eval ch_eval fl_eval bit_Suc_0_iff)

text \<open>The theorem on a concrete input.\<close>

theorem category_price_shipping_witness:
  "to_craftybase_rows Map.empty [air_item_ex] = Inr [air_row_ex]
   \<and> (0::nat) < length [air_item_ex]
   \<and> price_subtotal ([air_item_ex] ! 0) = Some (Fin 5)
   \<and> line_item_category_id ([air_row_ex] ! 0) = ''Shipping''
   \<and> line_item_price ([air_row_ex] ! 0) = Fin 0
   \<and> row_shipping ([air_row_ex] ! 0) = round2 (Fin (5 / 4))"
proof -
  have len: "(0::nat) < length [air_item_ex]" by simp
  have fr: "get_str (sku ([air_item_ex] ! 0)) = []
            \<and> contains ''freight'' (lower (get_str (name ([air_item_ex] ! 0))))"
    by (simp add: mk_item_def get_str_def lower_def ch_eval bit_Suc_0_iff)
  show ?thesis
    using air_rows_eval len fr category_price_shipping[OF air_rows_eval len]
    by (simp add: mk_item_def del: round2.simps)
qed

text \<open>
  C9. For an item whose quantity is a finite float other than zero (so for every quantity
  that is not an integer), the row is built without an exception and its
  \<open>line_item_quantity\<close> is the quantity truncated towards zero: 2.7 gives 2.
\<close>

theorem quantity_truncated:
  assumes "i < length items" and "qty (items ! i) = Some (NFloat (Fin q))" and "q \<noteq> 0"
  shows "(\<exists>r. make_row meta nts (items ! i) = Inr r
              \<and> line_item_quantity r = (if 0 \<le> q then \<lfloor>q\<rfloor> else \<lceil>q\<rceil>))
         \<and> (\<forall>rows. to_craftybase_rows meta items = Inr rows
              \<longrightarrow> line_item_quantity (rows ! i) = (if 0 \<le> q then \<lfloor>q\<rfloor> else \<lceil>q\<rceil>))"
proof (intro conjI allI impI)
  show "\<exists>r. make_row meta nts (items ! i) = Inr r
            \<and> line_item_quantity r = (if 0 \<le> q then \<lfloor>q\<rfloor> else \<lceil>q\<rceil>)"
    using assms(2,3) by (simp add: make_row_def int_or_one_def)
next
  fix rows assume "to_craftybase_rows meta items = Inr rows"
  from rows_nth[OF this assms(1)] obtain n where "make_row meta n (items ! i) = Inr (rows ! i)" ..
  from make_row_fields(5)[OF this]
  show "line_item_quantity (rows ! i) = (if 0 \<le> q then \<lfloor>q\<rfloor> else \<lceil>q\<rceil>)"
    using assms(2,3) by (simp add: int_or_one_def)
qed

lemma frac_rows_eval:
  "to_craftybase_rows Map.empty [frac_item_ex] = Inr [frac_row_ex]"
  by (simp add: row_eval ch_eval fl_eval bit_Suc_0_iff)

text \<open>The theorem on a concrete input.\<close>

theorem quantity_truncated_witness:
  "(0::nat) < length [frac_item_ex]
   \<and> qty ([frac_item_ex] ! 0) = Some (NFloat (Fin (3039929748475085 / 1125899906842624)))
   \<and> (3039929748475085 / 1125899906842624 :: real) \<noteq> 0
   \<and> to_craftybase_rows Map.empty [frac_item_ex] = Inr [frac_row_ex]
   \<and> line_item_quantity ([frac_row_ex] ! 0) = 2"
proof -
  have len: "(0::nat) < length [frac_item_ex]" by simp
  have q: "qty ([frac_item_ex] ! 0) = Some (NFloat (Fin (3039929748475085 / 1125899906842624)))"
    by (simp add: mk_item_def)
  have nz: "(3039929748475085 / 1125899906842624 :: real) \<noteq> 0" by simp
  show ?thesis
    using len q nz frac_rows_eval quantity_truncated[OF len q nz, of Map.empty None]
    by simp
qed

text \<open>
  C10. For an item whose quantity is 0, 0.0 or missing, the row is built without an
  exception and its \<open>line_item_quantity\<close> is 1.
\<close>

theorem zero_quantity_is_one:
  assumes "i < length items"
    and "qty (items ! i) = None \<or> qty (items ! i) = Some (NInt 0)
         \<or> qty (items ! i) = Some (NFloat (Fin 0))"
  shows "(\<exists>r. make_row meta nts (items ! i) = Inr r \<and> line_item_quantity r = 1)
         \<and> (\<forall>rows. to_craftybase_rows meta items = Inr rows
              \<longrightarrow> line_item_quantity (rows ! i) = 1)"
proof (intro conjI allI impI)
  show "\<exists>r. make_row meta nts (items ! i) = Inr r \<and> line_item_quantity r = 1"
    using assms(2) by (auto simp: make_row_def int_or_one_def)
next
  fix rows assume "to_craftybase_rows meta items = Inr rows"
  from rows_nth[OF this assms(1)] obtain n where "make_row meta n (items ! i) = Inr (rows ! i)" ..
  from make_row_fields(5)[OF this]
  show "line_item_quantity (rows ! i) = 1"
    using assms(2) by (auto simp: int_or_one_def)
qed

lemma zero_rows_eval:
  "\<exists>rows. to_craftybase_rows Map.empty zero_items_ex = Inr rows"
  by (simp add: row_eval ch_eval fl_eval bit_Suc_0_iff)

text \<open>The theorem on a concrete input.\<close>

theorem zero_quantity_is_one_witness:
  "\<exists>rows. to_craftybase_rows Map.empty zero_items_ex = Inr rows
     \<and> qty (zero_items_ex ! 0) = None
     \<and> qty (zero_items_ex ! 1) = Some (NInt 0)
     \<and> qty (zero_items_ex ! 2) = Some (NFloat (Fin 0))
     \<and> line_item_quantity (rows ! 0) = 1
     \<and> line_item_quantity (rows ! 1) = 1
     \<and> line_item_quantity (rows ! 2) = 1"
proof -
  from zero_rows_eval obtain rows where r: "to_craftybase_rows Map.empty zero_items_ex = Inr rows" ..
  have q0: "qty (zero_items_ex ! 0) = None" by simp
  have q1: "qty (zero_items_ex ! 1) = Some (NInt 0)" by (simp add: mk_item_def)
  have q2: "qty (zero_items_ex ! 2) = Some (NFloat (Fin 0))" by (simp add: mk_item_def)
  have "line_item_quantity (rows ! 0) = 1"
    using zero_quantity_is_one[of 0 zero_items_ex Map.empty None] q0 r by simp
  moreover have "line_item_quantity (rows ! 1) = 1"
    using zero_quantity_is_one[of 1 zero_items_ex Map.empty None] q1 r by simp
  moreover have "line_item_quantity (rows ! 2) = 1"
    using zero_quantity_is_one[of 2 zero_items_ex Map.empty None] q2 r by simp
  ultimately show ?thesis using r q0 q1 q2 by blast
qed

section \<open>Line items\<close>


lemma parse_line_one_zero:
  assumes "parse_line raw = Inr (Some it)"
  shows "price_subtotal it = Some (Fin 0) \<or> shipping it = Some (Fin 0)"
  using assms
  by (auto simp: parse_line_def Let_def mk_item_def split: if_splits option.splits sum.splits)

lemma scan_lines_items:
  assumes "scan_lines ls = Inr its" and "it \<in> set its"
  shows "\<exists>raw \<in> set ls. parse_line raw = Inr (Some it)"
  using assms
proof (induction ls arbitrary: its)
  case Nil
  then show ?case by simp
next
  case (Cons raw rest)
  from Cons.prems(1) obtain o_it its' where p: "parse_line raw = Inr o_it"
    and r: "scan_lines rest = Inr its'"
    and e: "its = (case o_it of None \<Rightarrow> [] | Some i \<Rightarrow> [i]) @ its'"
    by (auto split: sum.splits)
  from Cons.prems(2) e consider "o_it = Some it" | "it \<in> set its'"
    by (auto split: option.splits)
  then show ?case
  proof cases
    case 1
    with p show ?thesis by auto
  next
    case 2
    from Cons.IH[OF r 2] show ?thesis by auto
  qed
qed

text \<open>
  C8. Every item that \<^verbatim>\<open>parse_lines\<close> returns has a price subtotal equal to 0.0 or a
  shipping equal to 0.0.
\<close>

theorem one_amount_is_zero:
  assumes "parse_lines text = Inr items" and "it \<in> set items"
  shows "price_subtotal it = Some (Fin 0) \<or> shipping it = Some (Fin 0)"
proof -
  from assms obtain ls where "scan_lines ls = Inr items"
    by (auto simp: parse_lines_def Let_def)
  from scan_lines_items[OF this assms(2)] obtain raw where "parse_line raw = Inr (Some it)" ..
  then show ?thesis by (rule parse_line_one_zero)
qed

lemma table_text_eval:
  "parse_lines table_text_ex
   = Inr [mk_item ''AB-1'' ''Thing'' (NInt 1) (Fin 4) (Fin 0),
          mk_item [] ''Freight - UPS Ground'' (NInt 1) (Fin 0) (Fin (5 / 4))]"
  by (simp add: line_eval pat_eval re_eval ch_eval fl_eval)

text \<open>The theorem on a concrete input.\<close>

theorem one_amount_is_zero_witness:
  "parse_lines table_text_ex
   = Inr [mk_item ''AB-1'' ''Thing'' (NInt 1) (Fin 4) (Fin 0),
          mk_item [] ''Freight - UPS Ground'' (NInt 1) (Fin 0) (Fin (5 / 4))]
   \<and> (price_subtotal (mk_item ''AB-1'' ''Thing'' (NInt 1) (Fin 4) (Fin 0)) = Some (Fin 0)
      \<or> shipping (mk_item ''AB-1'' ''Thing'' (NInt 1) (Fin 4) (Fin 0)) = Some (Fin 0))
   \<and> (price_subtotal (mk_item [] ''Freight - UPS Ground'' (NInt 1) (Fin 0) (Fin (5 / 4)))
        = Some (Fin 0)
      \<or> shipping (mk_item [] ''Freight - UPS Ground'' (NInt 1) (Fin 0) (Fin (5 / 4)))
        = Some (Fin 0))"
  using table_text_eval one_amount_is_zero[OF table_text_eval, of "mk_item ''AB-1'' ''Thing'' (NInt 1) (Fin 4) (Fin 0)"]
    one_amount_is_zero[OF table_text_eval, of "mk_item [] ''Freight - UPS Ground'' (NInt 1) (Fin 0) (Fin (5 / 4))"]
  by simp

text \<open>
  C7. When the text has no table region (the search for the table pattern fails),
  \<^verbatim>\<open>parse_lines\<close> runs its loop over every line of the whole text.
\<close>

theorem fallback_whole_text:
  assumes "re_search True True table_re text = None"
  shows "parse_lines text = scan_lines (splitlines text)"
  using assms by (simp add: parse_lines_def)

lemma plain_text_no_table: "re_search True True table_re plain_text_ex = None"
  by (simp add: pat_eval re_eval ch_eval)

lemma plain_text_split:
  "splitlines plain_text_ex = [''1 AB-1: Thing 2.00 4.00'', ''Freight 1.25'']"
  by (simp add: splitlines_def is_linebreak_def ch_eval)

lemma plain_text_scan:
  "scan_lines [''1 AB-1: Thing 2.00 4.00'', ''Freight 1.25'']
   = Inr [mk_item ''AB-1'' ''Thing'' (NInt 1) (Fin 4) (Fin 0),
          mk_item [] ''Freight - UPS Ground'' (NInt 1) (Fin 0) (Fin (5 / 4))]"
  by (simp add: line_eval pat_eval re_eval ch_eval fl_eval)

text \<open>The theorem on a concrete input.\<close>

theorem fallback_whole_text_witness:
  "re_search True True table_re plain_text_ex = None
   \<and> splitlines plain_text_ex = [''1 AB-1: Thing 2.00 4.00'', ''Freight 1.25'']
   \<and> parse_lines plain_text_ex
     = Inr [mk_item ''AB-1'' ''Thing'' (NInt 1) (Fin 4) (Fin 0),
            mk_item [] ''Freight - UPS Ground'' (NInt 1) (Fin 0) (Fin (5 / 4))]"
  using plain_text_no_table plain_text_split plain_text_scan
    fallback_whole_text[OF plain_text_no_table]
  by simp

section \<open>Soundness of the matcher\<close>

lemma reps_sound:
  "(p', r') \<in> set (reps P lo hi g prev xs) \<Longrightarrow>
   \<exists>w. xs = w @ r' \<and> list_all P w \<and> lo \<le> length w
       \<and> (case hi of None \<Rightarrow> True | Some h \<Rightarrow> length w \<le> h)"
proof (induction xs arbitrary: lo hi prev)
  case Nil
  then show ?case by (auto split: if_splits option.splits)
next
  case (Cons x xs)
  let ?more = "if P x \<and> hi \<noteq> Some 0
               then reps P (lo - 1) (map_option (\<lambda>h. h - 1) hi) g (Some x) xs else []"
  let ?stop = "if lo = 0 then [(prev, x # xs)] else []"
  from Cons.prems have "(p', r') \<in> set ?more \<or> (p', r') \<in> set ?stop"
    by (auto simp: Let_def split: if_splits)
  then show ?case
  proof
    assume m: "(p', r') \<in> set ?more"
    then have px: "P x" and h0: "hi \<noteq> Some 0"
      and rec: "(p', r') \<in> set (reps P (lo - 1) (map_option (\<lambda>h. h - 1) hi) g (Some x) xs)"
      by (auto split: if_splits)
    from Cons.IH[OF rec] obtain w where w: "xs = w @ r'" "list_all P w" "lo - 1 \<le> length w"
      "(case map_option (\<lambda>h. h - 1) hi of None \<Rightarrow> True | Some h \<Rightarrow> length w \<le> h)" by blast
    have "x # xs = (x # w) @ r'" using w(1) by simp
    moreover have "list_all P (x # w)" using px w(2) by simp
    moreover have "lo \<le> length (x # w)" using w(3) by simp
    moreover have "(case hi of None \<Rightarrow> True | Some h \<Rightarrow> length (x # w) \<le> h)"
      using w(4) h0 by (cases hi) auto
    ultimately show ?thesis by blast
  next
    assume "(p', r') \<in> set ?stop"
    then have "lo = 0" "r' = x # xs" by (auto split: if_splits)
    then have "x # xs = [] @ r' \<and> list_all P [] \<and> lo \<le> length ([]::string)
               \<and> (case hi of None \<Rightarrow> True | Some h \<Rightarrow> length ([]::string) \<le> h)"
      by (auto split: option.splits)
    then show ?thesis by blast
  qed
qed

lemma lit_match_sound:
  "lit_match ic s prev xs = Some (p', r') \<Longrightarrow>
   \<exists>w. xs = w @ r' \<and> list_all2 (\<lambda>c x. atom_ok ic False (AChar c) x) s w"
proof (induction ic s prev xs rule: lit_match.induct)
  case (1 ic prev xs)
  then show ?case by simp
next
  case (2 ic c cs prev)
  then show ?case by simp
next
  case (3 ic c cs prev x xs)
  from "3.prems" have ok: "atom_ok ic False (AChar c) x"
    and rec: "lit_match ic cs (Some x) xs = Some (p', r')"
    by (auto split: if_splits)
  from "3.IH"[OF ok rec] obtain w where "xs = w @ r'"
    "list_all2 (\<lambda>c x. atom_ok ic False (AChar c) x) cs w" by blast
  then have "x # xs = (x # w) @ r' \<and> list_all2 (\<lambda>c x. atom_ok ic False (AChar c) x) (c # cs) (x # w)"
    using ok by simp
  then show ?case by blast
qed


lemma rmatch_sound:
  "st' \<in> set (rmatch ic da r st) \<Longrightarrow>
   \<exists>w. fst (snd st) = w @ fst (snd st') \<and> accepts ic da r w"
proof (induction ic da r st arbitrary: st' rule: rmatch.induct)
  case (1 ic da a prev xs cs)
  then show ?case
    by (auto split: list.splits if_splits intro: accepts.intros)
next
  case (2 ic da s prev xs cs)
  then obtain p r where m: "lit_match ic s prev xs = Some (p, r)" and st': "st' = (p, r, cs)"
    by (cases "lit_match ic s prev xs") auto
  from lit_match_sound[OF m] obtain w where "xs = w @ r"
    "list_all2 (\<lambda>c x. atom_ok ic False (AChar c) x) s w" by blast
  then have "fst (snd (prev, xs, cs)) = w @ fst (snd st')" "accepts ic da (Lit s) w"
    using st' by (simp_all add: acc_lit del: atom_ok.simps)
  then show ?case by blast
next
  case (3 ic da prev xs cs)
  then show ?case by (auto split: if_splits intro: accepts.intros)
next
  case (4 ic da prev xs cs)
  then show ?case by (auto split: if_splits intro: accepts.intros)
next
  case (5 ic da prev xs cs)
  then show ?case by (auto split: if_splits intro: accepts.intros)
next
  case (6 ic da st)
  then show ?case by (auto intro: accepts.intros)
next
  case (7 ic da r rs st)
  from "7.prems" obtain mid where mid: "mid \<in> set (rmatch ic da r st)"
    and fin: "st' \<in> set (rmatch ic da (Cat rs) mid)" by auto
  from "7.IH"(1)[OF mid] obtain u where u: "fst (snd st) = u @ fst (snd mid)" "accepts ic da r u"
    by blast
  from "7.IH"(2)[OF mid fin] obtain v where v: "fst (snd mid) = v @ fst (snd st')"
    "accepts ic da (Cat rs) v" by blast
  have "fst (snd st) = (u @ v) @ fst (snd st')" using u(1) v(1) by simp
  moreover have "accepts ic da (Cat (r # rs)) (u @ v)" using u(2) v(2) by (rule acc_cons)
  ultimately show ?case by blast
next
  case (8 ic da r1 r2 st)
  from "8.prems" have "st' \<in> set (rmatch ic da r1 st) \<or> st' \<in> set (rmatch ic da r2 st)" by auto
  then show ?case
  proof
    assume "st' \<in> set (rmatch ic da r1 st)"
    from "8.IH"(1)[OF this] show ?thesis by (blast intro: acc_alt1)
  next
    assume "st' \<in> set (rmatch ic da r2 st)"
    from "8.IH"(2)[OF this] show ?thesis by (blast intro: acc_alt2)
  qed
next
  case (9 ic da lo hi g a prev xs cs)
  then obtain p r where m: "(p, r) \<in> set (reps (atom_ok ic da a) lo hi g prev xs)"
    and st': "st' = (p, r, cs)" by auto
  from reps_sound[OF m] st' show ?case by (auto intro: accepts.intros)
next
  case (10 ic da n r prev xs cs)
  from "10.prems" obtain p r' cs' where m: "(p, r', cs') \<in> set (rmatch ic da r (prev, xs, cs))"
    and st': "st' = (p, r', (n, take (length xs - length r') xs) # cs')" by auto
  from "10.IH"[OF m] st' show ?case by (auto intro: accepts.intros)
qed

lemma rmatch_caps:
  "st' \<in> set (rmatch ic da r st) \<Longrightarrow> map_of (snd (snd st')) n = Some v \<Longrightarrow>
   map_of (snd (snd st)) n = Some v \<or> (\<exists>r0. (n, r0) \<in> set (groups r) \<and> accepts ic da r0 v)"
proof (induction ic da r st arbitrary: st' rule: rmatch.induct)
  case (1 ic da a prev xs cs)
  then show ?case by (auto split: list.splits if_splits)
next
  case (2 ic da s prev xs cs)
  then show ?case by (auto split: option.splits)
next
  case (3 ic da prev xs cs)
  then show ?case by (auto split: if_splits)
next
  case (4 ic da prev xs cs)
  then show ?case by (auto split: if_splits)
next
  case (5 ic da prev xs cs)
  then show ?case by (auto split: if_splits)
next
  case (6 ic da st)
  then show ?case by auto
next
  case (7 ic da r rs st)
  from "7.prems"(1) obtain mid where mid: "mid \<in> set (rmatch ic da r st)"
    and fin: "st' \<in> set (rmatch ic da (Cat rs) mid)" by auto
  from "7.IH"(2)[OF mid fin "7.prems"(2)]
  consider "map_of (snd (snd mid)) n = Some v"
    | "\<exists>r0. (n, r0) \<in> set (groups (Cat rs)) \<and> accepts ic da r0 v" by blast
  then show ?case
  proof cases
    case 1
    from "7.IH"(1)[OF mid 1] show ?thesis by auto
  next
    case 2
    then show ?thesis by auto
  qed
next
  case (8 ic da r1 r2 st)
  from "8.prems"(1) have "st' \<in> set (rmatch ic da r1 st) \<or> st' \<in> set (rmatch ic da r2 st)"
    by auto
  then show ?case
  proof
    assume "st' \<in> set (rmatch ic da r1 st)"
    from "8.IH"(1)[OF this "8.prems"(2)] show ?thesis by auto
  next
    assume "st' \<in> set (rmatch ic da r2 st)"
    from "8.IH"(2)[OF this "8.prems"(2)] show ?thesis by auto
  qed
next
  case (9 ic da lo hi g a prev xs cs)
  then show ?case by auto
next
  case (10 ic da n' r prev xs cs)
  from "10.prems"(1) obtain p r' cs' where m: "(p, r', cs') \<in> set (rmatch ic da r (prev, xs, cs))"
    and st': "st' = (p, r', (n', take (length xs - length r') xs) # cs')" by auto
  from rmatch_sound[OF m] obtain w where w: "xs = w @ r'" "accepts ic da r w" by auto
  then have tk: "take (length xs - length r') xs = w" by simp
  show ?case
  proof (cases "n = n'")
    case True
    with "10.prems"(2) st' tk have "v = w" by simp
    with w(2) True show ?thesis by auto
  next
    case False
    with "10.prems"(2) st' have "map_of cs' n = Some v" by simp
    from "10.IH"[OF m] this show ?thesis by auto
  qed
qed

lemma rmatch_mono:
  "st' \<in> set (rmatch ic da r st) \<Longrightarrow> map_of (snd (snd st)) n \<noteq> None \<Longrightarrow>
   map_of (snd (snd st')) n \<noteq> None"
proof (induction ic da r st arbitrary: st' rule: rmatch.induct)
  case (7 ic da r rs st)
  from "7.prems"(1) obtain mid where mid: "mid \<in> set (rmatch ic da r st)"
    and fin: "st' \<in> set (rmatch ic da (Cat rs) mid)" by auto
  from "7.IH"(2)[OF mid fin "7.IH"(1)[OF mid "7.prems"(2)]] show ?case .
next
  case (8 ic da r1 r2 st)
  from "8.prems"(1) have "st' \<in> set (rmatch ic da r1 st) \<or> st' \<in> set (rmatch ic da r2 st)"
    by auto
  then show ?case using "8.IH" "8.prems"(2) by blast
next
  case (10 ic da n' r prev xs cs)
  from "10.prems"(1) obtain p r' cs' where m: "(p, r', cs') \<in> set (rmatch ic da r (prev, xs, cs))"
    and st': "st' = (p, r', (n', take (length xs - length r') xs) # cs')" by auto
  from "10.IH"[OF m] "10.prems"(2) st' show ?case by auto
qed (auto split: list.splits if_splits option.splits)

lemma rmatch_sets:
  "st' \<in> set (rmatch ic da r st) \<Longrightarrow> sets_group n r \<Longrightarrow> map_of (snd (snd st')) n \<noteq> None"
proof (induction ic da r st arbitrary: st' rule: rmatch.induct)
  case (7 ic da r rs st)
  from "7.prems"(1) obtain mid where mid: "mid \<in> set (rmatch ic da r st)"
    and fin: "st' \<in> set (rmatch ic da (Cat rs) mid)" by auto
  from "7.prems"(2) have "sets_group n r \<or> sets_group n (Cat rs)" by (simp add: list_ex_iff)
  then show ?case
  proof
    assume "sets_group n r"
    from rmatch_mono[OF fin "7.IH"(1)[OF mid this]] show ?thesis .
  next
    assume "sets_group n (Cat rs)"
    from "7.IH"(2)[OF mid fin this] show ?thesis .
  qed
next
  case (8 ic da r1 r2 st)
  from "8.prems"(1) have "st' \<in> set (rmatch ic da r1 st) \<or> st' \<in> set (rmatch ic da r2 st)"
    by auto
  then show ?case
  proof
    assume a: "st' \<in> set (rmatch ic da r1 st)"
    from "8.prems"(2) have "sets_group n r1" by simp
    from "8.IH"(1)[OF a this] show ?thesis .
  next
    assume a: "st' \<in> set (rmatch ic da r2 st)"
    from "8.prems"(2) have "sets_group n r2" by simp
    from "8.IH"(2)[OF a this] show ?thesis .
  qed
next
  case (10 ic da n' r prev xs cs)
  from "10.prems"(1) obtain p r' cs' where m: "(p, r', cs') \<in> set (rmatch ic da r (prev, xs, cs))"
    and st': "st' = (p, r', (n', take (length xs - length r') xs) # cs')" by auto
  show ?case
  proof (cases "n' = n")
    case True
    with st' show ?thesis by simp
  next
    case False
    with "10.prems"(2) have "sets_group n r" by simp
    from "10.IH"[OF m this] st' show ?thesis by auto
  qed
qed auto

section \<open>Header\<close>

lemma search_from_match:
  "search_from ic da r prev xs = Some m \<Longrightarrow>
   \<exists>p ys st'. st' \<in> set (rmatch ic da r (p, ys, [])) \<and> snd (snd st') = m"
proof (induction xs arbitrary: prev)
  case Nil
  then show ?case
    by (cases "rmatch ic da r (prev, [], [])") (auto, metis list.set_intros(1) snd_conv)
next
  case (Cons x xs)
  show ?case
  proof (cases "rmatch ic da r (prev, x # xs, [])")
    case Nil
    with Cons.prems have "search_from ic da r (Some x) xs = Some m" by simp
    from Cons.IH[OF this] show ?thesis .
  next
    case (Cons st sts)
    with Cons.prems have "snd (snd st) = m" by (cases st) auto
    moreover have "st \<in> set (rmatch ic da r (prev, x # xs, []))" using Cons by simp
    ultimately show ?thesis by blast
  qed
qed

lemma search_group_set:
  assumes "re_search ic da r s = Some m" and "sets_group n r"
  shows "map_of m n = Some (group m n)"
proof -
  from assms(1) obtain p ys st' where "st' \<in> set (rmatch ic da r (p, ys, []))" "snd (snd st') = m"
    unfolding re_search_def using search_from_match by blast
  with rmatch_sets[OF _ assms(2)] have "map_of m n \<noteq> None" by blast
  then show ?thesis by (auto simp: group_def)
qed

lemma search_group_accepts:
  assumes "re_search ic da r s = Some m" and "map_of m n = Some v"
  shows "\<exists>r0. (n, r0) \<in> set (groups r) \<and> accepts ic da r0 v"
proof -
  from assms(1) obtain p ys st' where st: "st' \<in> set (rmatch ic da r (p, ys, []))"
    and m: "snd (snd st') = m"
    unfolding re_search_def using search_from_match by blast
  from rmatch_caps[OF st, of n v] assms(2) m show ?thesis by simp
qed

lemma first_group_search:
  assumes "sets_group 1 r"
  shows "first_group (re_search ic da r s) = map_option (\<lambda>m. group m 1) (re_search ic da r s)"
    and "(first_group (re_search ic da r s) = None) = (re_search ic da r s = None)"
  using search_group_set[OF _ assms, of ic da s]
  by (cases "re_search ic da r s"; simp add: first_group_def)+

lemma header_patterns_set_group:
  "sets_group 1 invoice_re" "sets_group 1 date_re" "sets_group 1 so_re"
  "sets_group 1 shipment_re" "sets_group 1 tracking_re" "sets_group 1 tracking2_re"
  by (simp_all add: pat_eval)

lemma first_group_Some:
  assumes "re_search ic da r s = Some m" and "sets_group 1 r"
  shows "first_group (Some m) = Some (group m (Suc 0))"
  using search_group_set[OF assms] by (simp add: first_group_def)

lemma first_group_None: "first_group None = None"
  by (simp add: first_group_def)

lemma parse_header_value:
  "parse_header text k =
     (if k = ''invoice_no'' then first_group (re_search False False invoice_re text)
      else if k = ''purchase_date'' then first_group (re_search False False date_re text)
      else if k = ''so_number'' then first_group (re_search True False so_re text)
      else if k = ''shipment_number'' then first_group (re_search True False shipment_re text)
      else if k = ''tracking'' then
        first_group (case re_search True False tracking_re text of
                       None \<Rightarrow> re_search False False tracking2_re text
                     | Some m \<Rightarrow> Some m)
      else None)"
proof -
  note sg = header_patterns_set_group
  note fs = first_group_Some[OF _ sg(1), of False False "text"]
    first_group_Some[OF _ sg(2), of False False "text"]
    first_group_Some[OF _ sg(3), of True False "text"]
    first_group_Some[OF _ sg(4), of True False "text"]
    first_group_Some[OF _ sg(5), of True False "text"]
    first_group_Some[OF _ sg(6), of False False "text"]
  show ?thesis
    by (cases "re_search False False invoice_re text"; cases "re_search False False date_re text";
        cases "re_search True False so_re text"; cases "re_search True False shipment_re text";
        cases "re_search True False tracking_re text";
        cases "re_search False False tracking2_re text")
       (simp_all add: parse_header_def Let_def first_group_None fs)
qed


lemma first_group_is_None:
  assumes "sets_group 1 r"
  shows "(first_group (re_search ic da r s) = None) = (re_search ic da r s = None)"
  using first_group_search(2)[OF assms] .

text \<open>
  C3. For every text and every key, the header that \<^verbatim>\<open>parse_header\<close> returns maps the key
  to the text captured by group 1 of the first match of the key's pattern (for
  \<^verbatim>\<open>tracking\<close>: of the first pattern, or else of the second), and holds no other key; a
  key is in the header if and only if its pattern matches somewhere in the text. The
  function is total: it raises nothing.
\<close>

theorem parse_header_keys:
  "parse_header text k =
     (if k = ''invoice_no'' then first_group (re_search False False invoice_re text)
      else if k = ''purchase_date'' then first_group (re_search False False date_re text)
      else if k = ''so_number'' then first_group (re_search True False so_re text)
      else if k = ''shipment_number'' then first_group (re_search True False shipment_re text)
      else if k = ''tracking'' then
        first_group (case re_search True False tracking_re text of
                       None \<Rightarrow> re_search False False tracking2_re text
                     | Some m \<Rightarrow> Some m)
      else None)
   \<and> (k \<in> dom (parse_header text)) =
     (k = ''invoice_no'' \<and> re_search False False invoice_re text \<noteq> None
      \<or> k = ''purchase_date'' \<and> re_search False False date_re text \<noteq> None
      \<or> k = ''so_number'' \<and> re_search True False so_re text \<noteq> None
      \<or> k = ''shipment_number'' \<and> re_search True False shipment_re text \<noteq> None
      \<or> k = ''tracking'' \<and> (re_search True False tracking_re text \<noteq> None
                             \<or> re_search False False tracking2_re text \<noteq> None))"
proof -
  note sg = header_patterns_set_group
  have trk: "(first_group (case re_search True False tracking_re text of
                             None \<Rightarrow> re_search False False tracking2_re text
                           | Some m \<Rightarrow> Some m) = None)
             = (re_search True False tracking_re text = None
                \<and> re_search False False tracking2_re text = None)"
    using first_group_is_None[OF sg(5), of True False "text"]
      first_group_is_None[OF sg(6), of False False "text"]
    by (cases "re_search True False tracking_re text") simp_all
  have d: "(k \<in> dom (parse_header text)) = (parse_header text k \<noteq> None)" by auto
  have "(parse_header text k \<noteq> None) =
     (k = ''invoice_no'' \<and> re_search False False invoice_re text \<noteq> None
      \<or> k = ''purchase_date'' \<and> re_search False False date_re text \<noteq> None
      \<or> k = ''so_number'' \<and> re_search True False so_re text \<noteq> None
      \<or> k = ''shipment_number'' \<and> re_search True False shipment_re text \<noteq> None
      \<or> k = ''tracking'' \<and> (re_search True False tracking_re text \<noteq> None
                             \<or> re_search False False tracking2_re text \<noteq> None))"
    unfolding parse_header_value
    by (simp add: trk first_group_is_None[OF sg(1)] first_group_is_None[OF sg(2)]
          first_group_is_None[OF sg(3)] first_group_is_None[OF sg(4)]
        del: not_None_eq)
  with d show ?thesis using parse_header_value by simp
qed


lemma header_text_searches:
  "re_search False False invoice_re header_text_ex = Some [(1, ''ABC-123'')]"
  "re_search False False date_re header_text_ex = Some [(1, ''4/5/2024'')]"
  "re_search True False so_re header_text_ex = None"
  "re_search True False shipment_re header_text_ex = None"
  "re_search True False tracking_re header_text_ex = None"
  "re_search False False tracking2_re header_text_ex = None"
  by (simp_all add: pat_eval re_eval ch_eval)

text \<open>The theorem on a concrete input.\<close>

theorem parse_header_keys_witness:
  "parse_header header_text_ex ''invoice_no'' = Some ''ABC-123''
   \<and> parse_header header_text_ex ''purchase_date'' = Some ''4/5/2024''
   \<and> dom (parse_header header_text_ex) = {''invoice_no'', ''purchase_date''}"
proof -
  have a: "parse_header header_text_ex ''invoice_no'' = Some ''ABC-123''"
    using parse_header_keys[of header_text_ex "''invoice_no''"]
    by (simp add: header_text_searches first_group_def)
  have b: "parse_header header_text_ex ''purchase_date'' = Some ''4/5/2024''"
    using parse_header_keys[of header_text_ex "''purchase_date''"]
    by (simp add: header_text_searches first_group_def)
  have "k \<in> dom (parse_header header_text_ex) \<longleftrightarrow> k \<in> {''invoice_no'', ''purchase_date''}"
    for k
    using parse_header_keys[of header_text_ex k]
    by (simp add: header_text_searches del: not_None_eq)
  then have "dom (parse_header header_text_ex) = {''invoice_no'', ''purchase_date''}"
    by blast
  with a b show ?thesis by blast
qed

section \<open>The freight line\<close>

lemma line_patterns_set_group:
  "sets_group 1 table_re" "sets_group 1 amount_re"
  "sets_group 1 full_re" "sets_group 2 full_re" "sets_group 3 full_re" "sets_group 7 full_re"
  "sets_group 1 short_re" "sets_group 2 short_re" "sets_group 4 short_re"
  by (simp_all add: pat_eval)

inductive_cases acc_cat_consE: "accepts ic da (Cat (r # rs)) w"
inductive_cases acc_cat_nilE: "accepts ic da (Cat []) w"
inductive_cases acc_repE: "accepts ic da (Rep lo hi g a) w"
inductive_cases acc_litE: "accepts ic da (Lit s) w"

lemma lit_exact:
  assumes "list_all2 (\<lambda>c x. atom_ok False False (AChar c) x) s w"
  shows "w = s"
  using assms by (induction s w rule: list_all2_induct) simp_all

lemma digit09_ok: "atom_ok False da digit09 x = is_digit x"
  by (simp add: digit09_def in_set_def is_digit_def ord_def in_range_def)


lemma amount_group_shape:
  assumes "re_search False False amount_re s = Some m"
  shows "\<exists>ds a b. ds \<noteq> [] \<and> list_all is_digit ds \<and> is_digit a \<and> is_digit b
           \<and> group m 1 = ds @ ''.'' @ [a, b] \<and> map_of m 1 = Some (group m 1)"
proof -
  have sg: "sets_group 1 amount_re" by (simp add: amount_re_def)
  from search_group_set[OF assms sg] have g: "map_of m 1 = Some (group m 1)" .
  from search_group_accepts[OF assms g]
  have acc: "accepts False False
               (Cat [Plus digit09, Lit ''.'', Rep 2 (Some 2) True digit09]) (group m 1)"
    by (simp add: amount_re_def)
  then obtain ds v1 where 1: "group m 1 = ds @ v1" "accepts False False (Plus digit09) ds"
    "accepts False False (Cat [Lit ''.'', Rep 2 (Some 2) True digit09]) v1"
    by (rule acc_cat_consE) blast
  from 1(3) obtain p v2 where 2: "v1 = p @ v2" "accepts False False (Lit ''.'') p"
    "accepts False False (Cat [Rep 2 (Some 2) True digit09]) v2"
    by (rule acc_cat_consE) blast
  from 2(3) obtain fp v3 where 3: "v2 = fp @ v3"
    "accepts False False (Rep 2 (Some 2) True digit09) fp" "accepts False False (Cat []) v3"
    by (rule acc_cat_consE) blast
  from 3(3) have v3: "v3 = []" by (rule acc_cat_nilE) simp
  from 2(2) have p: "p = ''.''" by (rule acc_litE) (simp add: lit_exact)
  from 1(2) have ds: "list_all is_digit ds" "1 \<le> length ds"
    by (auto elim!: acc_repE simp: digit09_ok list_all_iff)
  from 3(2) have fp: "list_all is_digit fp" "length fp = 2"
    by (auto elim!: acc_repE simp: digit09_ok list_all_iff)
  from fp(2) obtain a b where ab: "fp = [a, b]"
    by (cases fp; simp) (metis length_0_conv length_Suc_conv list.exhaust)
  have "ds \<noteq> []" using ds(2) by auto
  moreover have "is_digit a" "is_digit b" using fp(1) ab by simp_all
  moreover have "group m 1 = ds @ ''.'' @ [a, b]" using 1(1) 2(1) 3(1) v3 p ab by simp
  ultimately show ?thesis using ds(1) g by blast
qed

lemma takeWhile_digits:
  assumes "list_all is_digit ds"
  shows "takeWhile is_digit (ds @ CHR ''.'' # fp) = ds"
    and "dropWhile is_digit (ds @ CHR ''.'' # fp) = CHR ''.'' # fp"
proof -
  have nd: "\<not> is_digit CHR ''.''" by (simp add: is_digit_def in_range_def ord_def)
  have all: "\<forall>x\<in>set ds. is_digit x" using assms by (simp add: list_all_iff)
  show "takeWhile is_digit (ds @ CHR ''.'' # fp) = ds"
    using all nd by (simp add: takeWhile_append2)
  show "dropWhile is_digit (ds @ CHR ''.'' # fp) = CHR ''.'' # fp"
    using all nd by (simp add: dropWhile_append2)
qed

lemma py_float_decimal:
  assumes "ds \<noteq> []" and "list_all is_digit ds" and "list_all is_digit fp"
  shows "py_float (ds @ ''.'' @ fp)
         = Inr (round64 (of_nat (digits_val (ds @ fp)) / 10 ^ length fp))"
proof -
  from assms(1) obtain d ds' where d: "ds = d # ds'" by (cases ds) auto
  with assms(2) have dd: "is_digit d" by simp
  have "d \<noteq> CHR ''-''" "d \<noteq> CHR ''+''"
    using dd by (auto simp: is_digit_def in_range_def ord_def)
  then have "py_float (ds @ ''.'' @ fp) = float_unsigned (ds @ CHR ''.'' # fp)"
    by (simp add: py_float_def d)
  also have "\<dots> = Inr (round64 (of_nat (digits_val (ds @ fp)) / 10 ^ length fp))"
    using assms by (simp add: float_unsigned_def Let_def takeWhile_digits[OF assms(2)])
  finally show ?thesis .
qed


text \<open>
  C5. A line that, once cleaned, is not empty, is not table chrome and contains the word
  \<^verbatim>\<open>Freight\<close> (in any case) gives exactly one item, with the empty sku, the name
  \<^verbatim>\<open>Freight - UPS Ground\<close>, the quantity 1 and the price subtotal 0.0, and no exception. Its
  shipping is 0.0 when the amount pattern finds nothing; otherwise it is the float of the
  text the pattern captured at the end of the line, which is one or more digits, a point and
  two digits: the double nearest to that decimal number.
\<close>

theorem freight_line_item:
  assumes "clean raw \<noteq> []"
    and "re_search True False chrome_re (clean raw) = None"
    and "re_search True False freight_re (clean raw) \<noteq> None"
  shows "\<exists>amt. parse_line raw
           = Inr (Some \<lparr>sku = Some [], name = Some ''Freight - UPS Ground'',
                        qty = Some (NInt 1), price_subtotal = Some (Fin 0),
                        shipping = Some amt\<rparr>)
         \<and> (case re_search False False amount_re (clean raw) of
              None \<Rightarrow> amt = Fin 0
            | Some m \<Rightarrow>
                py_float (group m 1) = Inr amt
                \<and> (\<exists>ds a b. ds \<noteq> [] \<and> list_all is_digit (ds @ [a, b])
                      \<and> group m 1 = ds @ ''.'' @ [a, b]
                      \<and> amt = round64 (of_nat (digits_val (ds @ [a, b])) / 100)))"
proof (cases "re_search False False amount_re (clean raw)")
  case None
  with assms show ?thesis
    by (simp add: parse_line_def Let_def mk_item_def)
next
  case (Some m)
  from amount_group_shape[OF Some] obtain ds a b where sh: "ds \<noteq> []" "list_all is_digit ds"
    "is_digit a" "is_digit b" "group m 1 = ds @ ''.'' @ [a, b]" by blast
  have fp: "list_all is_digit [a, b]" using sh(3,4) by simp
  from py_float_decimal[OF sh(1,2) fp]
  have fl: "py_float (group m 1) = Inr (round64 (of_nat (digits_val (ds @ [a, b])) / 100))"
    using sh(5) by simp
  have "parse_line raw
        = Inr (Some \<lparr>sku = Some [], name = Some ''Freight - UPS Ground'',
                     qty = Some (NInt 1), price_subtotal = Some (Fin 0),
                     shipping = Some (round64 (of_nat (digits_val (ds @ [a, b])) / 100))\<rparr>)"
    using assms Some fl by (simp add: parse_line_def Let_def mk_item_def)
  moreover have "list_all is_digit (ds @ [a, b])" using sh(2) fp by simp
  ultimately show ?thesis using Some fl sh(1,5) by auto
qed

lemma freight_ex_facts:
  "clean ''UPS Ground Freight 12.34'' = ''UPS Ground Freight 12.34''"
  "re_search True False chrome_re ''UPS Ground Freight 12.34'' = None"
  "re_search True False freight_re ''UPS Ground Freight 12.34'' \<noteq> None"
  "re_search False False amount_re ''UPS Ground Freight 12.34'' = Some [(1, ''12.34'')]"
  "py_float ''12.34'' = Inr (Fin (3473401212609495 / 281474976710656))"
  by (simp_all add: clean_def strip_def pat_eval re_eval ch_eval fl_eval)

lemma freight_ex2_facts:
  "clean ''Freight prepaid'' = ''Freight prepaid''"
  "re_search True False chrome_re ''Freight prepaid'' = None"
  "re_search True False freight_re ''Freight prepaid'' \<noteq> None"
  "re_search False False amount_re ''Freight prepaid'' = None"
  by (simp_all add: clean_def strip_def pat_eval re_eval ch_eval)

text \<open>The theorem on two concrete lines, with and without an amount.\<close>

theorem freight_line_item_witness:
  "clean ''UPS Ground Freight 12.34'' \<noteq> []
   \<and> re_search True False chrome_re (clean ''UPS Ground Freight 12.34'') = None
   \<and> re_search True False freight_re (clean ''UPS Ground Freight 12.34'') \<noteq> None
   \<and> parse_line ''UPS Ground Freight 12.34''
     = Inr (Some \<lparr>sku = Some [], name = Some ''Freight - UPS Ground'',
                  qty = Some (NInt 1), price_subtotal = Some (Fin 0),
                  shipping = Some (Fin (3473401212609495 / 281474976710656))\<rparr>)
   \<and> parse_line ''Freight prepaid''
     = Inr (Some \<lparr>sku = Some [], name = Some ''Freight - UPS Ground'',
                  qty = Some (NInt 1), price_subtotal = Some (Fin 0),
                  shipping = Some (Fin 0)\<rparr>)"
proof -
  have h: "clean ''UPS Ground Freight 12.34'' \<noteq> []"
    "re_search True False chrome_re (clean ''UPS Ground Freight 12.34'') = None"
    "re_search True False freight_re (clean ''UPS Ground Freight 12.34'') \<noteq> None"
    by (simp_all only: freight_ex_facts) simp_all
  from freight_line_item[OF h] obtain amt where
    p: "parse_line ''UPS Ground Freight 12.34''
        = Inr (Some \<lparr>sku = Some [], name = Some ''Freight - UPS Ground'',
                     qty = Some (NInt 1), price_subtotal = Some (Fin 0),
                     shipping = Some amt\<rparr>)"
    and c: "py_float (group [(1, ''12.34'')] 1) = Inr amt"
    by (auto simp: freight_ex_facts(1,4))
  from c have amt: "amt = Fin (3473401212609495 / 281474976710656)"
    by (simp add: group_def freight_ex_facts(5))
  have h2: "clean ''Freight prepaid'' \<noteq> []"
    "re_search True False chrome_re (clean ''Freight prepaid'') = None"
    "re_search True False freight_re (clean ''Freight prepaid'') \<noteq> None"
    by (simp_all only: freight_ex2_facts) simp_all
  from freight_line_item[OF h2]
  have p2: "parse_line ''Freight prepaid''
        = Inr (Some \<lparr>sku = Some [], name = Some ''Freight - UPS Ground'',
                     qty = Some (NInt 1), price_subtotal = Some (Fin 0),
                     shipping = Some (Fin 0)\<rparr>)"
    by (auto simp: freight_ex2_facts(1,4))
  show ?thesis using h p amt p2 by blast
qed

end
